theory Spec2Isabelle
  imports Main
begin

section \<open>The leveled logger of pkg/util/log/log.go\<close>

text \<open>
  The package wraps klog behind the logr.Logger interface. Two types implement the
  interface: the struct \<^verbatim>\<open>log\<close>, always used through a pointer, and the empty
  struct \<^verbatim>\<open>silent\<close>. The embedding keeps the pointers: every \<^verbatim>\<open>&log{...}\<close> of
  the source allocates a struct in a store, every slice is a window on a backing array
  of the store, and every call of klog is recorded in the store, in order.
\<close>

subsection \<open>Values of type interface{}\<close>

text \<open>
  The variadic arguments have the static type \<^verbatim>\<open>interface{}\<close>. The type switch of
  \<^verbatim>\<open>formatKeysAndValues\<close> tells three kinds apart: a value of dynamic type string,
  a value whose dynamic type implements \<^verbatim>\<open>error\<close>, anything else. An error value is
  represented by the text its \<^verbatim>\<open>Error\<close> method returns. Of the remaining values the
  nil interface and the integers are spelled out; any other one is represented by the
  text that \<^verbatim>\<open>fmt.Sprintf("%#v", _)\<close> gives for it.
\<close>

datatype other = NilV | IntV int | OpaqueV string

datatype val = StringV string | ErrorV string | OtherV other

function decimal :: "nat \<Rightarrow> string" where
  "decimal n =
     (if n < 10 then [''0123456789'' ! n]
      else decimal (n div 10) @ [''0123456789'' ! (n mod 10)])"
  by pat_completeness auto
termination
  by (relation "measure (\<lambda>n. n)") auto

declare decimal.simps [simp del]

text \<open>\<^verbatim>\<open>fmt.Sprintf("%#v", kv)\<close> for a value that is neither a string nor an error.\<close>

fun Sprintf_sharp_v :: "other \<Rightarrow> string" where
  "Sprintf_sharp_v NilV = ''<nil>''"
| "Sprintf_sharp_v (IntV i) = (if i < 0 then ''-'' @ decimal (nat (- i)) else decimal (nat i))"
| "Sprintf_sharp_v (OpaqueV t) = t"

text \<open>\<^verbatim>\<open>strings.Join(elems, sep)\<close>.\<close>

fun Join :: "string list \<Rightarrow> string \<Rightarrow> string" where
  "Join [] sep = []"
| "Join [x] sep = x"
| "Join (x # y # ys) sep = x @ sep @ Join (y # ys) sep"

text \<open>
  The loop of \<^verbatim>\<open>formatKeysAndValues\<close>: \<open>args\<close> is the slice built so far, the second
  argument what is left of \<^verbatim>\<open>keysAndValues\<close>.
\<close>

fun formatLoop :: "string list \<Rightarrow> val list \<Rightarrow> string list" where
  "formatLoop args [] = args"
| "formatLoop args (kv # kvs) =
     formatLoop
       (case kv of
          StringV t \<Rightarrow> args @ [t]
        | ErrorV t \<Rightarrow> args @ [t]
        | OtherV d \<Rightarrow> args @ [Sprintf_sharp_v d])
       kvs"

definition formatKeysAndValues :: "val list \<Rightarrow> string" where
  "formatKeysAndValues keysAndValues = Join (formatLoop [] keysAndValues) '' ''"

subsection \<open>Slices, structs and the store\<close>

type_synonym addr = nat

text \<open>
  A slice of strings: the address of its backing array (\<open>None\<close> for a slice of capacity
  zero, which has no storage: the nil slice and \<^verbatim>\<open>[]string{}\<close>), its length and its
  capacity.
\<close>

record slice =
  arr :: "addr option"
  len :: nat
  cap :: nat

record log =
  current :: int
  level :: int
  prefixes :: slice
  depth :: int

datatype call = InfoDepth int string | ErrorDepth int string

text \<open>
  The store: the \<^verbatim>\<open>log\<close> structs allocated so far (the address of a struct is its
  index), the backing arrays allocated so far (likewise), the calls klog has received,
  and the growth policy of the runtime: \<open>growth c n\<close> is the capacity \<^verbatim>\<open>append\<close>
  allocates beyond the \<open>n\<close> elements it needs when a slice of capacity \<open>c\<close> is too small.
  The language leaves that policy to the implementation, so it is a parameter.
\<close>

record mem =
  structs :: "log list"
  backing :: "string list list"
  klog :: "call list"
  growth :: "nat \<Rightarrow> nat \<Rightarrow> nat"

definition boot :: "(nat \<Rightarrow> nat \<Rightarrow> nat) \<Rightarrow> mem" where
  "boot g = \<lparr>structs = [], backing = [], klog = [], growth = g\<rparr>"

text \<open>Reading \<^verbatim>\<open>*l\<close>: a nil or wild pointer panics, which is \<open>None\<close>.\<close>

definition deref :: "mem \<Rightarrow> addr \<Rightarrow> log option" where
  "deref m a = (if a < length (structs m) then Some (structs m ! a) else None)"

text \<open>The elements of a slice, in order.\<close>

definition elems :: "mem \<Rightarrow> slice \<Rightarrow> string list" where
  "elems m s = (case arr s of None \<Rightarrow> [] | Some b \<Rightarrow> take (len s) (backing m ! b))"

definition empty_slice :: slice where
  "empty_slice = \<lparr>arr = None, len = 0, cap = 0\<rparr>"

text \<open>
  \<^verbatim>\<open>append(s, xs...)\<close>: when the capacity suffices the elements are written into the
  backing array of \<open>s\<close> behind its length; otherwise a new array is allocated, the
  elements of \<open>s\<close> are copied into it and \<open>xs\<close> is written behind them.
\<close>

definition go_append :: "mem \<Rightarrow> slice \<Rightarrow> string list \<Rightarrow> mem \<times> slice" where
  "go_append m s xs =
     (let need = len s + length xs in
      if need \<le> cap s then
        (case arr s of
           None \<Rightarrow> (m, s)
         | Some b \<Rightarrow>
             (m\<lparr>backing := (backing m)
                   [b := take (len s) (backing m ! b) @ xs @ drop need (backing m ! b)]\<rparr>,
              s\<lparr>len := need\<rparr>))
      else
        (let newcap = need + growth m (cap s) need in
         (m\<lparr>backing := backing m @ [elems m s @ xs @ replicate (newcap - need) []]\<rparr>,
          \<lparr>arr = Some (length (backing m)), len = need, cap = newcap\<rparr>)))"

subsection \<open>The logr.Logger interface and its two implementations\<close>

text \<open>
  A value of the interface holds a pointer to a \<^verbatim>\<open>log\<close> or a pointer to a
  \<^verbatim>\<open>silent\<close>. The struct \<^verbatim>\<open>silent\<close> has size zero, so a pointer to it carries
  nothing and needs no storage.
\<close>

datatype Logger = LogPtr addr | SilentPtr

text \<open>\<^verbatim>\<open>&log{...}\<close>: the struct is stored at the next free address.\<close>

definition new_log :: "mem \<Rightarrow> log \<Rightarrow> mem \<times> Logger" where
  "new_log m l = (m\<lparr>structs := structs m @ [l]\<rparr>, LogPtr (length (structs m)))"

definition NewLog :: "mem \<Rightarrow> int \<Rightarrow> mem \<times> Logger" where
  "NewLog m lvl = new_log m \<lparr>current = 0, level = lvl, prefixes = empty_slice, depth = 1\<rparr>"

definition formatMsg :: "mem \<Rightarrow> log \<Rightarrow> string \<Rightarrow> val list \<Rightarrow> string" where
  "formatMsg m l msg keysAndValues =
     (let prefixes = Join (elems m (prefixes l)) '': '';
          addString = formatKeysAndValues keysAndValues;
          retString = msg;
          retString = (if prefixes \<noteq> [] then prefixes @ '': '' @ retString else retString);
          retString = (if addString \<noteq> [] then retString @ '' '' @ addString else retString)
      in retString)"

definition log_WithDepth :: "mem \<Rightarrow> addr \<Rightarrow> int \<Rightarrow> (mem \<times> Logger) option" where
  "log_WithDepth m a d =
     (case deref m a of
        None \<Rightarrow> None
      | Some l \<Rightarrow>
          Some (new_log m
            \<lparr>current = current l, level = level l, prefixes = prefixes l, depth = d\<rparr>))"

definition log_Info :: "mem \<Rightarrow> addr \<Rightarrow> string \<Rightarrow> val list \<Rightarrow> mem option" where
  "log_Info m a msg keysAndValues =
     (case deref m a of
        None \<Rightarrow> None
      | Some l \<Rightarrow>
          Some (m\<lparr>klog := klog m @ [InfoDepth (depth l) (formatMsg m l msg keysAndValues)]\<rparr>))"

definition log_Enabled :: "mem \<Rightarrow> addr \<Rightarrow> bool" where
  "log_Enabled m a = True"

text \<open>
  The parameter \<open>err\<close> has the interface type \<^verbatim>\<open>error\<close>: it is nil (\<open>None\<close>) or an
  error value, given by the text of its \<^verbatim>\<open>Error\<close> method. Stored in a slice of
  \<^verbatim>\<open>interface{}\<close>, a nil \<^verbatim>\<open>error\<close> is the nil interface.
\<close>

definition as_val :: "string option \<Rightarrow> val" where
  "as_val err = (case err of None \<Rightarrow> OtherV NilV | Some t \<Rightarrow> ErrorV t)"

definition log_Error :: "mem \<Rightarrow> addr \<Rightarrow> string option \<Rightarrow> string \<Rightarrow> val list \<Rightarrow> mem option" where
  "log_Error m a err msg keysAndValues =
     (let newKeysAndValues = [as_val err];
          newKeysAndValues = newKeysAndValues @ keysAndValues
      in case deref m a of
           None \<Rightarrow> None
         | Some l \<Rightarrow>
             Some (m\<lparr>klog := klog m @ [ErrorDepth (depth l) (formatMsg m l msg newKeysAndValues)]\<rparr>))"

definition log_V :: "mem \<Rightarrow> addr \<Rightarrow> int \<Rightarrow> (mem \<times> Logger) option" where
  "log_V m a lvl =
     (case deref m a of
        None \<Rightarrow> None
      | Some l \<Rightarrow>
          if lvl < level l then Some (m, SilentPtr)
          else
            (let (m1, prefixes1) = go_append m empty_slice (elems m (prefixes l))
             in Some (new_log m1
                  \<lparr>current = lvl, level = level l, prefixes = prefixes1, depth = depth l\<rparr>)))"

definition log_WithValues :: "mem \<Rightarrow> addr \<Rightarrow> val list \<Rightarrow> (mem \<times> Logger) option" where
  "log_WithValues m a keysAndValues =
     (case deref m a of
        None \<Rightarrow> None
      | Some l \<Rightarrow>
          (let (m1, prefixes1) = go_append m empty_slice (elems m (prefixes l));
               (m2, prefixes2) = go_append m1 prefixes1 [formatKeysAndValues keysAndValues]
           in Some (new_log m2
                \<lparr>current = current l, level = level l, prefixes = prefixes2, depth = depth l\<rparr>)))"

definition log_WithName :: "mem \<Rightarrow> addr \<Rightarrow> string \<Rightarrow> (mem \<times> Logger) option" where
  "log_WithName m a name =
     (case deref m a of
        None \<Rightarrow> None
      | Some l \<Rightarrow>
          if name = [] then
            Some (new_log m
              \<lparr>current = current l, level = level l, prefixes = prefixes l, depth = depth l\<rparr>)
          else
            (let (m1, prefixes1) = go_append m empty_slice (elems m (prefixes l));
                 (m2, prefixes2) = go_append m1 prefixes1 [name]
             in Some (new_log m2
                  \<lparr>current = current l, level = level l, prefixes = prefixes2, depth = depth l\<rparr>)))"

text \<open>The methods of \<^verbatim>\<open>*silent\<close>; \<open>s\<close> is the receiver.\<close>

definition silent_Info :: "mem \<Rightarrow> Logger \<Rightarrow> string \<Rightarrow> val list \<Rightarrow> mem" where
  "silent_Info m s msg keysAndValues = m"

definition silent_Enabled :: "Logger \<Rightarrow> bool" where
  "silent_Enabled s = False"

definition silent_Error :: "mem \<Rightarrow> Logger \<Rightarrow> string option \<Rightarrow> string \<Rightarrow> val list \<Rightarrow> mem" where
  "silent_Error m s err msg keysAndValues = m"

definition silent_V :: "Logger \<Rightarrow> int \<Rightarrow> Logger" where
  "silent_V s lvl = s"

definition silent_WithValues :: "Logger \<Rightarrow> val list \<Rightarrow> Logger" where
  "silent_WithValues s keysAndValues = s"

definition silent_WithName :: "Logger \<Rightarrow> string \<Rightarrow> Logger" where
  "silent_WithName s name = s"

text \<open>Calls through the interface dispatch on the dynamic type.\<close>

fun Info :: "mem \<Rightarrow> Logger \<Rightarrow> string \<Rightarrow> val list \<Rightarrow> mem option" where
  "Info m (LogPtr a) msg kvs = log_Info m a msg kvs"
| "Info m SilentPtr msg kvs = Some (silent_Info m SilentPtr msg kvs)"

fun Enabled :: "mem \<Rightarrow> Logger \<Rightarrow> bool" where
  "Enabled m (LogPtr a) = log_Enabled m a"
| "Enabled m SilentPtr = silent_Enabled SilentPtr"

fun Error :: "mem \<Rightarrow> Logger \<Rightarrow> string option \<Rightarrow> string \<Rightarrow> val list \<Rightarrow> mem option" where
  "Error m (LogPtr a) err msg kvs = log_Error m a err msg kvs"
| "Error m SilentPtr err msg kvs = Some (silent_Error m SilentPtr err msg kvs)"

fun V :: "mem \<Rightarrow> Logger \<Rightarrow> int \<Rightarrow> (mem \<times> Logger) option" where
  "V m (LogPtr a) lvl = log_V m a lvl"
| "V m SilentPtr lvl = Some (m, silent_V SilentPtr lvl)"

fun WithValues :: "mem \<Rightarrow> Logger \<Rightarrow> val list \<Rightarrow> (mem \<times> Logger) option" where
  "WithValues m (LogPtr a) kvs = log_WithValues m a kvs"
| "WithValues m SilentPtr kvs = Some (m, silent_WithValues SilentPtr kvs)"

fun WithName :: "mem \<Rightarrow> Logger \<Rightarrow> string \<Rightarrow> (mem \<times> Logger) option" where
  "WithName m (LogPtr a) name = log_WithName m a name"
| "WithName m SilentPtr name = Some (m, silent_WithName SilentPtr name)"

subsection \<open>Observing loggers\<close>

text \<open>
  The text one value contributes to a rendered line: the three branches of the type
  switch in \<^verbatim>\<open>formatKeysAndValues\<close>, as a function of the value.
\<close>

fun token :: "val \<Rightarrow> string" where
  "token (StringV t) = t"
| "token (ErrorV t) = t"
| "token (OtherV d) = Sprintf_sharp_v d"

text \<open>
  What a caller can tell about a logger: it is the silent one, or it has a threshold
  (\<^verbatim>\<open>level\<close>), a current level, a sequence of prefixes and a call depth.
\<close>

datatype view = Null | Active int int "string list" int

fun observe :: "mem \<Rightarrow> Logger \<Rightarrow> view option" where
  "observe m SilentPtr = Some Null"
| "observe m (LogPtr a) =
     (case deref m a of
        None \<Rightarrow> None
      | Some l \<Rightarrow> Some (Active (level l) (current l) (elems m (prefixes l)) (depth l)))"

text \<open>
  The three methods of the interface that return a logger, as data, so that a sequence
  of calls can be run from a store and a logger.
\<close>

datatype derivation = DV int | DWithValues "val list" | DWithName string

fun derive :: "mem \<times> Logger \<Rightarrow> derivation \<Rightarrow> (mem \<times> Logger) option" where
  "derive (m, r) (DV lvl) = V m r lvl"
| "derive (m, r) (DWithValues kvs) = WithValues m r kvs"
| "derive (m, r) (DWithName name) = WithName m r name"

fun derives :: "mem \<times> Logger \<Rightarrow> derivation list \<Rightarrow> (mem \<times> Logger) option" where
  "derives x [] = Some x"
| "derives x (d # ds) = (case derive x d of None \<Rightarrow> None | Some y \<Rightarrow> derives y ds)"

text \<open>The calls klog has received once \<^verbatim>\<open>Info(msg, kvs...)\<close> has run on a logger.\<close>

definition logged :: "(mem \<times> Logger) option \<Rightarrow> string \<Rightarrow> val list \<Rightarrow> call list option" where
  "logged x msg kvs =
     (case x of None \<Rightarrow> None | Some (m, r) \<Rightarrow> map_option klog (Info m r msg kvs))"

text \<open>
  The line as the specification words it, to be compared with \<open>formatMsg\<close>: the prefixes
  joined by a colon and a space, the same separator, the message, a space, the rendered
  pairs joined by spaces; no leading segment when there is no prefix, no trailing segment
  when there is no pair.
\<close>

definition spec_line :: "string list \<Rightarrow> string \<Rightarrow> val list \<Rightarrow> string" where
  "spec_line names msg pairs =
     (if names = [] then [] else Join names '': '' @ '': '') @ msg @
     (if pairs = [] then [] else '' '' @ Join (map token pairs) '' '')"

subsection \<open>Well-formed stores\<close>

text \<open>
  A slice is well formed in a store when it has no storage and no capacity, or its
  backing array is allocated, as long as the capacity says, and the length lies within
  the capacity. A store is well formed when the slice of every struct is.
\<close>

definition slice_ok :: "mem \<Rightarrow> slice \<Rightarrow> bool" where
  "slice_ok m s =
     (case arr s of
        None \<Rightarrow> len s = 0 \<and> cap s = 0
      | Some b \<Rightarrow> b < length (backing m) \<and> len s \<le> cap s \<and> length (backing m ! b) = cap s)"

definition mem_ok :: "mem \<Rightarrow> bool" where
  "mem_ok m = list_all (\<lambda>l. slice_ok m (prefixes l)) (structs m)"

text \<open>
  \<open>extends m m'\<close>: every struct and every backing array of \<open>m\<close> is in \<open>m'\<close> at the same
  address with the same contents, and klog has received nothing in between.
\<close>

definition extends :: "mem \<Rightarrow> mem \<Rightarrow> bool" where
  "extends m m' =
     (take (length (structs m)) (structs m') = structs m
      \<and> take (length (backing m)) (backing m') = backing m
      \<and> klog m' = klog m \<and> growth m' = growth m)"

subsection \<open>Sample stores\<close>

text \<open>
  Two growth policies: one allocates exactly what is needed, the other twice that, so
  that the next \<^verbatim>\<open>append\<close> writes in place.
\<close>

definition exact_fit :: "nat \<Rightarrow> nat \<Rightarrow> nat" where
  "exact_fit c n = 0"

definition doubling :: "nat \<Rightarrow> nat \<Rightarrow> nat" where
  "doubling c n = n"

text \<open>
  The store after \<^verbatim>\<open>NewLog(2).WithName("a")\<close> under the doubling policy, and the
  two structs in it.
\<close>

definition root2 :: log where
  "root2 = \<lparr>current = 0, level = 2, prefixes = empty_slice, depth = 1\<rparr>"

definition named2 :: log where
  "named2 =
     \<lparr>current = 0, level = 2, prefixes = \<lparr>arr = Some 0, len = 1, cap = 2\<rparr>, depth = 1\<rparr>"

definition sample :: mem where
  "sample = \<lparr>structs = [root2, named2], backing = [[''a'', []]], klog = [],
     growth = doubling\<rparr>"

lemma formatLoop_eq: "formatLoop args kvs = args @ map token kvs"
  by (induction kvs arbitrary: args) (auto split: val.splits)

lemma formatKeysAndValues_eq: "formatKeysAndValues kvs = Join (map token kvs) '' ''"
  by (simp add: formatKeysAndValues_def formatLoop_eq)

lemma Join_snoc: "Join (ps @ [x]) sep = (if ps = [] then x else Join ps sep @ sep @ x)"
  by (induction ps sep rule: Join.induct) auto

lemma Join_Cons: "Join (x # xs) sep = (if xs = [] then x else x @ sep @ Join xs sep)"
  by (cases xs) auto

lemma Join_empty_iff: "sep \<noteq> [] \<Longrightarrow> Join ps sep = [] \<longleftrightarrow> ps = [] \<or> ps = [[]]"
  by (induction ps sep rule: Join.induct) auto

lemma decimal_42: "decimal 42 = ''42''"
  by (simp add: decimal.simps)

lemma empty_slice_sel [simp]:
  "arr empty_slice = None" "len empty_slice = 0" "cap empty_slice = 0"
  by (simp_all add: empty_slice_def)

lemma go_append_empty:
  "go_append m empty_slice xs =
     (if xs = [] then (m, empty_slice)
      else (m\<lparr>backing := backing m @ [xs @ replicate (growth m 0 (length xs)) []]\<rparr>,
            \<lparr>arr = Some (length (backing m)), len = length xs,
             cap = length xs + growth m 0 (length xs)\<rparr>))"
  by (auto simp: go_append_def elems_def Let_def)

lemma copy_only:
  assumes "go_append m empty_slice xs = (m1, p1)"
  shows "structs m1 = structs m \<and> extends m m1 \<and> elems m1 p1 = xs \<and> slice_ok m1 p1
    \<and> (\<forall>b. arr p1 = Some b \<longrightarrow> length (backing m) \<le> b)"
  using assms
  by (auto simp: go_append_empty elems_def slice_ok_def extends_def
      split: if_splits)

lemma copy_append:
  assumes "go_append m empty_slice xs = (m1, p1)" and "go_append m1 p1 [y] = (m2, p2)"
  shows "structs m2 = structs m \<and> extends m m2 \<and> elems m2 p2 = xs @ [y] \<and> slice_ok m2 p2
    \<and> (\<forall>b. arr p2 = Some b \<longrightarrow> length (backing m) \<le> b)"
  using assms
  by (auto simp: go_append_empty go_append_def elems_def slice_ok_def extends_def Let_def
      nth_append split: if_splits)

lemma take_eq_prefix:
  assumes "take (length xs) ys = xs"
  shows "length xs \<le> length ys" and "i < length xs \<Longrightarrow> ys ! i = xs ! i"
proof -
  have "length (take (length xs) ys) = length xs" by (simp only: assms)
  then show "length xs \<le> length ys" by simp
  assume i: "i < length xs"
  then have "take (length xs) ys ! i = ys ! i" by simp
  then show "ys ! i = xs ! i" by (simp only: assms)
qed

lemma extends_refl: "extends m m"
  by (simp add: extends_def)

lemma extends_trans: "extends m m1 \<Longrightarrow> extends m1 m2 \<Longrightarrow> extends m m2"
proof -
  have tt: "take (length xs) zs = xs"
    if "take (length xs) ys = xs" and "take (length ys) zs = ys" for xs ys zs :: "'a list"
  proof -
    have "length xs \<le> length ys" using that(1) by (rule take_eq_prefix(1))
    then have "take (length xs) (take (length ys) zs) = take (length xs) zs"
      by (simp add: min_def)
    then show ?thesis using that by simp
  qed
  assume "extends m m1" and "extends m1 m2"
  then show ?thesis
    unfolding extends_def by (auto intro: tt)
qed

lemma extends_slice:
  assumes "extends m m'" and "slice_ok m s"
  shows "slice_ok m' s \<and> elems m' s = elems m s"
proof (cases "arr s")
  case None
  with assms show ?thesis by (simp add: slice_ok_def elems_def)
next
  case (Some b)
  with assms have b: "b < length (backing m)" by (simp add: slice_ok_def)
  from assms have t: "take (length (backing m)) (backing m') = backing m"
    by (simp add: extends_def)
  from take_eq_prefix [OF t] b
  have "backing m' ! b = backing m ! b" and "length (backing m) \<le> length (backing m')"
    by simp_all
  with b Some assms show ?thesis by (simp add: slice_ok_def elems_def)
qed

lemma extends_deref:
  assumes "extends m m'" and "deref m a = Some l"
  shows "deref m' a = Some l"
proof -
  from assms have a: "a < length (structs m)" and l: "structs m ! a = l"
    by (auto simp: deref_def split: if_splits)
  from assms have t: "take (length (structs m)) (structs m') = structs m"
    by (simp add: extends_def)
  from take_eq_prefix [OF t] a l
  have "structs m' ! a = l" and "length (structs m) \<le> length (structs m')"
    by simp_all
  with a show ?thesis by (simp add: deref_def)
qed

lemma mem_ok_deref: "mem_ok m \<Longrightarrow> deref m a = Some l \<Longrightarrow> slice_ok m (prefixes l)"
  by (auto simp: mem_ok_def deref_def list_all_length split: if_splits)

lemma elems_frame [simp]:
  "elems (m\<lparr>structs := ss\<rparr>) s = elems m s"
  "elems (m\<lparr>klog := ks\<rparr>) s = elems m s"
  by (simp_all add: elems_def split: option.split)

lemma slice_ok_frame [simp]:
  "slice_ok (m\<lparr>structs := ss\<rparr>) s = slice_ok m s"
  "slice_ok (m\<lparr>klog := ks\<rparr>) s = slice_ok m s"
  by (simp_all add: slice_ok_def split: option.split)

lemma formatMsg_frame [simp]:
  "formatMsg (m\<lparr>structs := ss\<rparr>) l msg kvs = formatMsg m l msg kvs"
  "formatMsg (m\<lparr>klog := ks\<rparr>) l msg kvs = formatMsg m l msg kvs"
  by (simp_all add: formatMsg_def)

lemma formatMsg_cong:
  "elems m' (prefixes l') = elems m (prefixes l) \<Longrightarrow>
   formatMsg m' l' msg kvs = formatMsg m l msg kvs"
  by (simp add: formatMsg_def)

lemma extends_structs [simp]: "extends m (m\<lparr>structs := structs m @ ls\<rparr>)"
  by (simp add: extends_def)

lemma deref_new: "structs m' = structs m @ [l'] \<Longrightarrow> deref m' (length (structs m)) = Some l'"
  by (simp add: deref_def)

lemma mem_ok_grow:
  assumes "mem_ok m" and "extends m m'" and "structs m' = structs m @ [l']"
    and "slice_ok m' (prefixes l')"
  shows "mem_ok m'"
proof -
  have "\<forall>x \<in> set (structs m). slice_ok m' (prefixes x)"
    using assms(1) extends_slice [OF assms(2)] by (simp add: mem_ok_def list_all_iff)
  with assms(3,4) show ?thesis
    by (simp add: mem_ok_def list_all_iff)
qed

lemma mem_ok_boot: "mem_ok (boot g)"
  by (simp add: mem_ok_def boot_def)

lemma log_V_silent:
  assumes "deref m a = Some l" and "lvl < level l"
  shows "log_V m a lvl = Some (m, SilentPtr)"
  using assms by (simp add: log_V_def)

lemma log_V_effect:
  assumes "deref m a = Some l" and "\<not> lvl < level l"
  obtains m' l' where
    "log_V m a lvl = Some (m', LogPtr (length (structs m)))"
    "structs m' = structs m @ [l']" "extends m m'"
    "level l' = level l" "current l' = lvl" "depth l' = depth l"
    "elems m' (prefixes l') = elems m (prefixes l)"
    "slice_ok m' (prefixes l')"
    "\<forall>b. arr (prefixes l') = Some b \<longrightarrow> length (backing m) \<le> b"
proof -
  obtain m1 p1 where c: "go_append m empty_slice (elems m (prefixes l)) = (m1, p1)"
    by (cases "go_append m empty_slice (elems m (prefixes l))")
  let ?l = "\<lparr>current = lvl, level = level l, prefixes = p1, depth = depth l\<rparr>"
  let ?m = "m1\<lparr>structs := structs m1 @ [?l]\<rparr>"
  note f = copy_only [OF c]
  have e: "extends m ?m"
    using f by (simp add: extends_def)
  show ?thesis
  proof (rule that [of ?m ?l])
    show "log_V m a lvl = Some (?m, LogPtr (length (structs m)))"
      using assms c f by (simp add: log_V_def new_log_def)
  qed (use f e in simp_all)
qed

lemma log_WithValues_effect:
  assumes "deref m a = Some l"
  obtains m' l' where
    "log_WithValues m a kvs = Some (m', LogPtr (length (structs m)))"
    "structs m' = structs m @ [l']" "extends m m'"
    "level l' = level l" "current l' = current l" "depth l' = depth l"
    "elems m' (prefixes l') = elems m (prefixes l) @ [formatKeysAndValues kvs]"
    "slice_ok m' (prefixes l')"
    "\<forall>b. arr (prefixes l') = Some b \<longrightarrow> length (backing m) \<le> b"
proof -
  obtain m1 p1 where c: "go_append m empty_slice (elems m (prefixes l)) = (m1, p1)"
    by (cases "go_append m empty_slice (elems m (prefixes l))")
  obtain m2 p2 where d: "go_append m1 p1 [formatKeysAndValues kvs] = (m2, p2)"
    by (cases "go_append m1 p1 [formatKeysAndValues kvs]")
  let ?l = "\<lparr>current = current l, level = level l, prefixes = p2, depth = depth l\<rparr>"
  let ?m = "m2\<lparr>structs := structs m2 @ [?l]\<rparr>"
  note f = copy_append [OF c d]
  have e: "extends m ?m"
    using f by (simp add: extends_def)
  show ?thesis
  proof (rule that [of ?m ?l])
    show "log_WithValues m a kvs = Some (?m, LogPtr (length (structs m)))"
      using assms c d f by (simp add: log_WithValues_def new_log_def)
  qed (use f e in simp_all)
qed

lemma log_WithName_effect:
  assumes "deref m a = Some l" and "name \<noteq> []"
  obtains m' l' where
    "log_WithName m a name = Some (m', LogPtr (length (structs m)))"
    "structs m' = structs m @ [l']" "extends m m'"
    "level l' = level l" "current l' = current l" "depth l' = depth l"
    "elems m' (prefixes l') = elems m (prefixes l) @ [name]"
    "slice_ok m' (prefixes l')"
    "\<forall>b. arr (prefixes l') = Some b \<longrightarrow> length (backing m) \<le> b"
proof -
  obtain m1 p1 where c: "go_append m empty_slice (elems m (prefixes l)) = (m1, p1)"
    by (cases "go_append m empty_slice (elems m (prefixes l))")
  obtain m2 p2 where d: "go_append m1 p1 [name] = (m2, p2)"
    by (cases "go_append m1 p1 [name]")
  let ?l = "\<lparr>current = current l, level = level l, prefixes = p2, depth = depth l\<rparr>"
  let ?m = "m2\<lparr>structs := structs m2 @ [?l]\<rparr>"
  note f = copy_append [OF c d]
  have e: "extends m ?m"
    using f by (simp add: extends_def)
  show ?thesis
  proof (rule that [of ?m ?l])
    show "log_WithName m a name = Some (?m, LogPtr (length (structs m)))"
      using assms c d f by (simp add: log_WithName_def new_log_def)
  qed (use f e in simp_all)
qed

lemma log_WithName_empty:
  assumes "deref m a = Some l"
  shows "log_WithName m a [] = Some (m\<lparr>structs := structs m @ [l]\<rparr>, LogPtr (length (structs m)))"
  using assms by (simp add: log_WithName_def new_log_def)

lemma log_WithDepth_eq:
  assumes "deref m a = Some l"
  shows "log_WithDepth m a d =
    Some (m\<lparr>structs := structs m @ [l\<lparr>depth := d\<rparr>]\<rparr>, LogPtr (length (structs m)))"
  using assms by (simp add: log_WithDepth_def new_log_def)

lemma formatMsg_eq:
  "formatMsg m l msg kvs =
     (if Join (elems m (prefixes l)) '': '' = [] then []
      else Join (elems m (prefixes l)) '': '' @ '': '') @ msg @
     (if Join (map token kvs) '' '' = [] then [] else '' '' @ Join (map token kvs) '' '')"
  by (simp add: formatMsg_def formatKeysAndValues_eq Let_def)

lemma log_Info_eq:
  assumes "deref m a = Some l"
  shows "log_Info m a msg kvs =
    Some (m\<lparr>klog := klog m @ [InfoDepth (depth l) (formatMsg m l msg kvs)]\<rparr>)"
  using assms by (simp add: log_Info_def)

lemma log_Error_eq:
  assumes "deref m a = Some l"
  shows "log_Error m a err msg kvs =
    Some (m\<lparr>klog := klog m @ [ErrorDepth (depth l) (formatMsg m l msg (as_val err # kvs))]\<rparr>)"
  using assms by (simp add: log_Error_def)

lemma same_struct:
  assumes "deref m b = deref m a"
  shows "log_V m b lvl = log_V m a lvl"
    and "log_WithValues m b kvs = log_WithValues m a kvs"
    and "log_WithName m b name = log_WithName m a name"
    and "log_WithDepth m b d = log_WithDepth m a d"
    and "log_Info m b msg kvs = log_Info m a msg kvs"
    and "log_Error m b err msg kvs = log_Error m a err msg kvs"
  using assms
  by (simp_all add: log_V_def log_WithValues_def log_WithName_def log_WithDepth_def
      log_Info_def log_Error_def)

lemma frame_facts:
  assumes "mem_ok m" and "deref m a = Some l" and "extends m m'"
    and "structs m' = structs m @ [l']" and "slice_ok m' (prefixes l')"
  shows "mem_ok m'" and "deref m' a = Some l"
    and "elems m' (prefixes l) = elems m (prefixes l)"
    and "formatMsg m' l msg kvs = formatMsg m l msg kvs"
proof -
  show "mem_ok m'" using assms(1,3,4,5) by (rule mem_ok_grow)
  show "deref m' a = Some l" using assms(3,2) by (rule extends_deref)
  have "slice_ok m (prefixes l)" using assms(1,2) by (rule mem_ok_deref)
  with assms(3) show e: "elems m' (prefixes l) = elems m (prefixes l)"
    by (simp add: extends_slice)
  then show "formatMsg m' l msg kvs = formatMsg m l msg kvs"
    by (rule formatMsg_cong)
qed

lemma sample_reached:
  "derives (NewLog (boot doubling) 2) [DWithName ''a''] = Some (sample, LogPtr 1)"
  by (simp add: NewLog_def new_log_def boot_def log_WithName_def deref_def go_append_def
      elems_def doubling_def sample_def root2_def named2_def empty_slice_def Let_def)

lemma sample_ok: "mem_ok sample"
  by (simp add: mem_ok_def sample_def slice_ok_def root2_def named2_def)

lemma sample_sel:
  "structs sample = [root2, named2]" "backing sample = [[''a'', []]]" "klog sample = []"
  "growth sample = doubling"
  by (simp_all add: sample_def)

lemma sample_fields:
  "level root2 = 2" "current root2 = 0" "depth root2 = 1"
  "level named2 = 2" "current named2 = 0" "depth named2 = 1"
  by (simp_all add: root2_def named2_def)

lemma sample_deref:
  "deref sample 0 = Some root2" "deref sample 1 = Some named2"
  "deref sample (Suc 0) = Some named2"
  by (simp_all add: deref_def sample_def)

lemma sample_elems:
  "elems sample (prefixes root2) = []" "elems sample (prefixes named2) = [''a'']"
  by (simp_all add: elems_def sample_def root2_def named2_def)

lemma sample_line: "formatMsg sample named2 ''m'' [] = ''a: m''"
  by (simp add: formatMsg_eq sample_elems)

section \<open>The properties\<close>

text \<open>
  C2, as the specification states it: the line is \<open>spec_line\<close> of the prefixes, the
  message and the pairs. The code tests the joined strings, not the sequences: a single
  pair that renders to the empty string gives no trailing space.
\<close>

theorem formatMsg_spec_counterexample:
  "formatMsg (boot exact_fit) \<lparr>current = 0, level = 0, prefixes = empty_slice, depth = 1\<rparr>
      ''m'' [StringV []] = ''m''
   \<and> spec_line
       (elems (boot exact_fit)
          (prefixes \<lparr>current = 0, level = 0, prefixes = empty_slice, depth = 1\<rparr>))
       ''m'' [StringV []] = ''m ''"
  by (simp add: formatMsg_def formatKeysAndValues_def spec_line_def elems_def)

text \<open>
  C2, amended: the line is the joined prefixes and the separator, unless the joined
  prefixes are the empty string (no prefix, or the single prefix \<open>''''\<close>); then the message;
  then a space and the rendered pairs joined by spaces, unless that joined string is empty
  (no pair, or a single pair that renders to \<open>''''\<close>). Outside those two cases the line is
  the one the specification words, and prefixes svc and worker, message started and the
  pairs id, 42 give \<open>svc: worker: started id 42\<close>.
\<close>

theorem formatMsg_line:
  "formatMsg m l msg kvs =
     (if Join (elems m (prefixes l)) '': '' = [] then []
      else Join (elems m (prefixes l)) '': '' @ '': '') @ msg @
     (if Join (map token kvs) '' '' = [] then [] else '' '' @ Join (map token kvs) '' '')
   \<and> (Join (elems m (prefixes l)) '': '' = [] \<longleftrightarrow>
        elems m (prefixes l) = [] \<or> elems m (prefixes l) = [[]])
   \<and> (Join (map token kvs) '' '' = [] \<longleftrightarrow> kvs = [] \<or> map token kvs = [[]])
   \<and> (elems m (prefixes l) \<noteq> [[]] \<and> map token kvs \<noteq> [[]] \<longrightarrow>
        formatMsg m l msg kvs = spec_line (elems m (prefixes l)) msg kvs)
   \<and> (elems m (prefixes l) = [''svc'', ''worker''] \<longrightarrow>
        formatMsg m l ''started'' [StringV ''id'', OtherV (IntV 42)]
          = ''svc: worker: started id 42'')"
proof -
  have a: "Join (elems m (prefixes l)) '': '' = [] \<longleftrightarrow>
        elems m (prefixes l) = [] \<or> elems m (prefixes l) = [[]]"
    by (rule Join_empty_iff) simp
  have b: "Join (map token kvs) '' '' = [] \<longleftrightarrow> kvs = [] \<or> map token kvs = [[]]"
    using Join_empty_iff [of "'' ''" "map token kvs"] by simp
  have c: "formatMsg m l msg kvs = spec_line (elems m (prefixes l)) msg kvs"
    if "elems m (prefixes l) \<noteq> [[]]" and "map token kvs \<noteq> [[]]"
    using that a b by (simp add: formatMsg_eq spec_line_def)
  have d: "formatMsg m l ''started'' [StringV ''id'', OtherV (IntV 42)]
          = ''svc: worker: started id 42''" if "elems m (prefixes l) = [''svc'', ''worker'']"
    using that by (simp add: formatMsg_eq decimal_42)
  show ?thesis
    using a b c d formatMsg_eq [of m l msg kvs] by blast
qed

theorem formatMsg_line_witness:
  "elems (boot exact_fit\<lparr>backing := [[''svc'', ''worker'']]\<rparr>)
      (prefixes \<lparr>current = 0, level = 0,
         prefixes = \<lparr>arr = Some 0, len = 2, cap = 2\<rparr>, depth = 1\<rparr>) = [''svc'', ''worker'']
   \<and> map token [StringV ''id'', OtherV (IntV 42)] = [''id'', ''42'']
   \<and> formatMsg (boot exact_fit\<lparr>backing := [[''svc'', ''worker'']]\<rparr>)
       \<lparr>current = 0, level = 0, prefixes = \<lparr>arr = Some 0, len = 2, cap = 2\<rparr>, depth = 1\<rparr>
       ''started'' [StringV ''id'', OtherV (IntV 42)]
     = spec_line [''svc'', ''worker''] ''started'' [StringV ''id'', OtherV (IntV 42)]
   \<and> spec_line [''svc'', ''worker''] ''started'' [StringV ''id'', OtherV (IntV 42)]
     = ''svc: worker: started id 42''"
proof -
  let ?m = "boot exact_fit\<lparr>backing := [[''svc'', ''worker'']]\<rparr>"
  let ?l = "\<lparr>current = 0, level = 0, prefixes = \<lparr>arr = Some 0, len = 2, cap = 2\<rparr>,
    depth = 1\<rparr>"
  have e: "elems ?m (prefixes ?l) = [''svc'', ''worker'']"
    by (simp add: elems_def boot_def)
  have t: "map token [StringV ''id'', OtherV (IntV 42)] = [''id'', ''42'']"
    by (simp add: decimal_42)
  show ?thesis
    using formatMsg_line [of ?m ?l "''started''" "[StringV ''id'', OtherV (IntV 42)]"] e t
    by (simp add: spec_line_def)
qed

text \<open>
  C3: on a logger that is not the silent one, \<^verbatim>\<open>Error(err, msg, pairs...)\<close> hands klog
  the line that \<^verbatim>\<open>Info(msg, err, pairs...)\<close> hands it, the error being the first of the
  rendered pairs; with no prefix, the message failed and an error whose text is boom, the
  line is \<open>failed boom\<close>.
\<close>

theorem Error_renders_as_Info:
  assumes "deref m a = Some l"
  shows "Error m (LogPtr a) err msg kvs =
           Some (m\<lparr>klog := klog m @
             [ErrorDepth (depth l) (formatMsg m l msg (as_val err # kvs))]\<rparr>)
    \<and> Info m (LogPtr a) msg (as_val err # kvs) =
           Some (m\<lparr>klog := klog m @
             [InfoDepth (depth l) (formatMsg m l msg (as_val err # kvs))]\<rparr>)
    \<and> formatKeysAndValues (as_val err # kvs) = Join (token (as_val err) # map token kvs) '' ''
    \<and> token (as_val (Some t)) = t
    \<and> (elems m (prefixes l) = [] \<longrightarrow>
         formatMsg m l ''failed'' (as_val (Some ''boom'') # []) = ''failed boom'')"
  using assms
  by (simp add: log_Error_eq log_Info_eq formatKeysAndValues_eq as_val_def formatMsg_eq)

theorem Error_renders_as_Info_witness:
  "deref sample 0 = Some root2
   \<and> elems sample (prefixes root2) = []
   \<and> Error sample (LogPtr 0) (Some ''boom'') ''failed'' [] =
       Some (sample\<lparr>klog := [ErrorDepth 1 ''failed boom'']\<rparr>)
   \<and> Info sample (LogPtr 0) ''failed'' [ErrorV ''boom''] =
       Some (sample\<lparr>klog := [InfoDepth 1 ''failed boom'']\<rparr>)"
proof -
  have k: "klog sample = []" "depth root2 = 1"
    by (simp_all add: sample_def root2_def)
  show ?thesis
    using Error_renders_as_Info [OF sample_deref(1), of "Some ''boom''" "''failed''" "[]"]
      sample_deref(1) sample_elems(1) k
    by (simp add: as_val_def)
qed

text \<open>
  C9: \<^verbatim>\<open>Error\<close> with a nil error on a logger that is not the silent one returns: the
  nil interface takes the default branch of the type switch and is rendered as the token
  \<open><nil>\<close>, the first of the trailing tokens of the line handed to klog.
\<close>

theorem Error_nil_total:
  assumes "deref m a = Some l"
  shows "Error m (LogPtr a) None msg kvs =
           Some (m\<lparr>klog := klog m @
             [ErrorDepth (depth l)
               ((if Join (elems m (prefixes l)) '': '' = [] then []
                 else Join (elems m (prefixes l)) '': '' @ '': '')
                @ msg @ '' '' @ Join (''<nil>'' # map token kvs) '' '')]\<rparr>)
    \<and> formatLoop [] (as_val None # kvs) = ''<nil>'' # map token kvs"
  using assms
  by (simp add: log_Error_eq formatMsg_eq as_val_def formatLoop_eq Join_Cons)

theorem Error_nil_total_witness:
  "deref sample 1 = Some named2
   \<and> Error sample (LogPtr 1) None ''failed'' [] =
       Some (sample\<lparr>klog := [ErrorDepth 1 ''a: failed <nil>'']\<rparr>)"
proof -
  have k: "klog sample = []" "depth named2 = 1"
    by (simp_all add: sample_def named2_def)
  show ?thesis
    using Error_nil_total [OF sample_deref(2), of "''failed''" "[]"]
      sample_deref(2) sample_elems(2) k
    by simp
qed

text \<open>
  C4: on the silent logger \<^verbatim>\<open>V\<close>, \<^verbatim>\<open>WithValues\<close> and \<^verbatim>\<open>WithName\<close> return the
  receiver and leave the store as it is; \<^verbatim>\<open>Info\<close> and \<^verbatim>\<open>Error\<close> leave the store as it
  is, so klog receives nothing and nothing is rendered; and every sequence of
  derivations from the silent logger ends in the silent logger, in the same store.
\<close>

theorem silent_absorbs:
  "V m SilentPtr lvl = Some (m, SilentPtr)
   \<and> WithValues m SilentPtr kvs = Some (m, SilentPtr)
   \<and> WithName m SilentPtr name = Some (m, SilentPtr)
   \<and> Info m SilentPtr msg kvs = Some m
   \<and> Error m SilentPtr err msg kvs = Some m
   \<and> derives (m, SilentPtr) ds = Some (m, SilentPtr)
   \<and> logged (derives (m, SilentPtr) ds) msg kvs = Some (klog m)"
proof -
  have step: "derive (m, SilentPtr) d = Some (m, SilentPtr)" for d
    by (cases d) (simp_all add: silent_V_def silent_WithValues_def silent_WithName_def)
  have run: "derives (m, SilentPtr) ds = Some (m, SilentPtr)"
    by (induction ds) (simp_all add: step)
  show ?thesis
    by (simp add: run logged_def silent_V_def silent_WithValues_def silent_WithName_def
        silent_Info_def silent_Error_def)
qed

text \<open>
  C1: \<^verbatim>\<open>V(lvl)\<close> on a logger that is not the silent one, of threshold \<open>level l\<close>, returns
  the silent logger exactly when \<open>lvl < level l\<close>, and then nothing is allocated and
  \<^verbatim>\<open>Info\<close> and \<^verbatim>\<open>Error\<close> on the result do nothing. Otherwise it returns a pointer to a
  new struct with the threshold and the depth of the receiver, the current level \<open>lvl\<close>
  and the same prefixes in a backing array of its own, and \<^verbatim>\<open>Info\<close> and \<^verbatim>\<open>Error\<close> on
  it each hand klog one line.
\<close>

theorem V_gate:
  assumes "deref m a = Some l"
  shows "\<exists>m' r. log_V m a lvl = Some (m', r)
    \<and> (r = SilentPtr \<longleftrightarrow> lvl < level l)
    \<and> klog m' = klog m
    \<and> (if lvl < level l then
          m' = m \<and> Info m' r msg kvs = Some m' \<and> Error m' r err msg kvs = Some m'
        else
          (\<exists>b l'. r = LogPtr b \<and> deref m' b = Some l'
             \<and> level l' = level l \<and> current l' = lvl \<and> depth l' = depth l
             \<and> elems m' (prefixes l') = elems m (prefixes l)
             \<and> (\<forall>c. arr (prefixes l') = Some c \<longrightarrow> length (backing m) \<le> c)
             \<and> Info m' r msg kvs =
                  Some (m'\<lparr>klog := klog m @
                    [InfoDepth (depth l) (formatMsg m l msg kvs)]\<rparr>)
             \<and> Error m' r err msg kvs =
                  Some (m'\<lparr>klog := klog m @
                    [ErrorDepth (depth l) (formatMsg m l msg (as_val err # kvs))]\<rparr>)))"
proof (cases "lvl < level l")
  case True
  with assms show ?thesis
    by (simp add: log_V_silent silent_Info_def silent_Error_def)
next
  case False
  from log_V_effect [OF assms False] obtain m' l' where
    v: "log_V m a lvl = Some (m', LogPtr (length (structs m)))"
    and s: "structs m' = structs m @ [l']"
    and e: "extends m m'"
    and f: "level l' = level l" "current l' = lvl" "depth l' = depth l"
    and p: "elems m' (prefixes l') = elems m (prefixes l)"
    and c: "\<forall>b. arr (prefixes l') = Some b \<longrightarrow> length (backing m) \<le> b"
    by blast
  have d: "deref m' (length (structs m)) = Some l'"
    using s by (rule deref_new)
  have k: "klog m' = klog m"
    using e by (simp add: extends_def)
  have fm: "formatMsg m' l' msg kvs = formatMsg m l msg kvs" for kvs
    using p by (rule formatMsg_cong)
  have i: "Info m' (LogPtr (length (structs m))) msg kvs =
      Some (m'\<lparr>klog := klog m @ [InfoDepth (depth l) (formatMsg m l msg kvs)]\<rparr>)"
    by (simp add: log_Info_eq [OF d] k f fm)
  have r: "Error m' (LogPtr (length (structs m))) err msg kvs =
      Some (m'\<lparr>klog := klog m @
        [ErrorDepth (depth l) (formatMsg m l msg (as_val err # kvs))]\<rparr>)"
    by (simp add: log_Error_eq [OF d] k f fm)
  from False v d k f p c i r show ?thesis
    by simp
qed

theorem V_gate_witness:
  "deref sample 1 = Some named2
   \<and> log_V sample 1 1 = Some (sample, SilentPtr)
   \<and> log_V sample 1 2 =
       Some (sample\<lparr>structs := [root2, named2,
               \<lparr>current = 2, level = 2, prefixes = \<lparr>arr = Some 1, len = 1, cap = 2\<rparr>,
                depth = 1\<rparr>],
             backing := [[''a'', []], [''a'', []]]\<rparr>, LogPtr 2)
   \<and> logged (log_V sample 1 2) ''m'' [] = Some [InfoDepth 1 ''a: m'']"
proof -
  have lo: "log_V sample 1 1 = Some (sample, SilentPtr)"
    using V_gate [OF sample_deref(2), of 1] by (auto simp: sample_fields)
  let ?l = "\<lparr>current = 2, level = 2, prefixes = \<lparr>arr = Some 1, len = 1, cap = 2\<rparr>,
    depth = 1\<rparr>"
  let ?m = "sample\<lparr>structs := [root2, named2, ?l], backing := [[''a'', []], [''a'', []]]\<rparr>"
  have e: "log_V sample 1 2 = Some (?m, LogPtr 2)"
    by (simp add: log_V_def sample_deref go_append_empty sample_elems sample_fields
        sample_sel new_log_def doubling_def)
  have i: "Info ?m (LogPtr 2) ''m'' [] = Some (?m\<lparr>klog := [InfoDepth 1 ''a: m'']\<rparr>)"
    using e V_gate [OF sample_deref(2), where lvl = 2 and msg = "''m''" and kvs = "[]"
        and err = None]
    by (auto simp: sample_fields sample_sel sample_line)
  show ?thesis
    using lo e i sample_deref(2) by (simp add: logged_def)
qed

text \<open>
  C8: \<^verbatim>\<open>WithDepth(d)\<close> on a logger that is not the silent one returns a pointer to a new
  struct that is the receiver's with the depth \<open>d\<close>: same threshold, same current level,
  the same slice of prefixes. The lines it renders are those of the receiver, and
  \<^verbatim>\<open>Info\<close> and \<^verbatim>\<open>Error\<close> hand them to klog with the depth \<open>d\<close>.
\<close>

theorem WithDepth_only_depth:
  assumes "deref m a = Some l"
  shows "\<exists>m' b. log_WithDepth m a d = Some (m', LogPtr b)
    \<and> deref m' b = Some (l\<lparr>depth := d\<rparr>)
    \<and> backing m' = backing m \<and> klog m' = klog m
    \<and> formatMsg m' (l\<lparr>depth := d\<rparr>) msg kvs = formatMsg m l msg kvs
    \<and> Info m' (LogPtr b) msg kvs =
         Some (m'\<lparr>klog := klog m @ [InfoDepth d (formatMsg m l msg kvs)]\<rparr>)
    \<and> Error m' (LogPtr b) err msg kvs =
         Some (m'\<lparr>klog := klog m @
           [ErrorDepth d (formatMsg m l msg (as_val err # kvs))]\<rparr>)"
proof -
  let ?m = "m\<lparr>structs := structs m @ [l\<lparr>depth := d\<rparr>]\<rparr>"
  have w: "log_WithDepth m a d = Some (?m, LogPtr (length (structs m)))"
    using assms by (rule log_WithDepth_eq)
  have n: "deref ?m (length (structs m)) = Some (l\<lparr>depth := d\<rparr>)"
    by (simp add: deref_def)
  have fm: "formatMsg ?m (l\<lparr>depth := d\<rparr>) msg kvs = formatMsg m l msg kvs" for kvs
    by (simp add: formatMsg_def)
  show ?thesis
    using w n fm by (simp add: log_Info_eq [OF n] log_Error_eq [OF n])
qed

theorem WithDepth_only_depth_witness:
  "deref sample 1 = Some named2
   \<and> log_WithDepth sample 1 3 =
       Some (sample\<lparr>structs := [root2, named2, named2\<lparr>depth := 3\<rparr>]\<rparr>, LogPtr 2)
   \<and> logged (log_WithDepth sample 1 3) ''m'' [] = Some [InfoDepth 3 ''a: m'']
   \<and> logged (Some (sample, LogPtr 1)) ''m'' [] = Some [InfoDepth 1 ''a: m'']"
proof -
  let ?m = "sample\<lparr>structs := [root2, named2, named2\<lparr>depth := 3\<rparr>]\<rparr>"
  have e: "log_WithDepth sample 1 3 = Some (?m, LogPtr 2)"
    using log_WithDepth_eq [OF sample_deref(2), of 3] by (simp add: sample_sel)
  have i: "Info ?m (LogPtr 2) ''m'' [] = Some (?m\<lparr>klog := [InfoDepth 3 ''a: m'']\<rparr>)"
    using e WithDepth_only_depth [OF sample_deref(2), of 3 "''m''" "[]" None]
    by (simp add: sample_sel sample_line)
  have j: "Info sample (LogPtr 1) ''m'' [] = Some (sample\<lparr>klog := [InfoDepth 1 ''a: m'']\<rparr>)"
    using log_Info_eq [OF sample_deref(2), of "''m''" "[]"]
    by (simp add: sample_sel sample_fields sample_line)
  show ?thesis
    using e i j sample_deref(2) by (simp add: logged_def)
qed

end
